theory Spec2Isabelle
  imports Complex_Main
begin

section \<open>Paths\<close>

text \<open>
  \<^verbatim>\<open>let trimPath = location => location.replace(/(^\/)|(\/$)/, ``).replace(/\/\/+/, `/`)\<close>

  Neither regular expression carries the \<^verbatim>\<open>g\<close> flag, so each \<^verbatim>\<open>replace\<close>
  rewrites the leftmost match only. The search of the first one walks the string from
  the left; at a position it succeeds when the character is a slash and the position is
  the first one (\<^verbatim>\<open>^\/\<close>) or the last one (\<^verbatim>\<open>\/$\<close>). The flag of
  \<open>replace_edge\<close> says whether the position is the first one.
\<close>

fun replace_edge :: "bool \<Rightarrow> string \<Rightarrow> string" where
  "replace_edge at_start [] = []"
| "replace_edge at_start (c # cs) =
     (if c = CHR ''/'' \<and> (at_start \<or> cs = []) then cs
      else c # replace_edge False cs)"

text \<open>
  The second expression matches the leftmost run of two or more slashes, greedily, and
  the run is replaced by one slash.
\<close>

fun replace_run :: "string \<Rightarrow> string" where
  "replace_run (c # d # cs) =
     (if c = CHR ''/'' \<and> d = CHR ''/''
      then CHR ''/'' # dropWhile (\<lambda>x. x = CHR ''/'') cs
      else c # replace_run (d # cs))"
| "replace_run cs = cs"

definition trimPath :: "string \<Rightarrow> string" where
  "trimPath location = replace_run (replace_edge True location)"

text \<open>The template literal \<^verbatim>\<open>`${path}/${childPath}`\<close> on two strings.\<close>

definition join_path :: "string \<Rightarrow> string \<Rightarrow> string" where
  "join_path path childPath = path @ ''/'' @ childPath"

section \<open>Values\<close>

text \<open>
  The values that flow through the driver are the data of the store, of the
  authentication state and of the error objects, and what a property access on them can
  reach. \<open>JObj\<close> is a plain object, one written as a literal or decoded from data, with
  its own properties in insertion order. \<open>JHost\<close> is any other object: a function or a
  prototype object of the language, or an instance of another constructor such as an
  error; it has a name that tells it apart and its own data properties.
\<close>

datatype jsval =
    JUndefined
  | JNull
  | JBool bool
  | JNaN
  | JNum real
  | JStr string
  | JObj "(string \<times> jsval) list"
  | JHost string "(string \<times> jsval) list"

section \<open>Path accessors\<close>

text \<open>
  What the code throws. The three \<^verbatim>\<open>throw new Error(...)\<close> of the driver are told apart
  by their message:
  \<^item> \<open>ProtocolViolation\<close>: \<^verbatim>\<open>Only $set is allowed on the '$auth' location\<close>;
  \<^item> \<open>UnknownReservedPath dir\<close>: \<^verbatim>\<open>No special key called '${dir}', I'm sorry!\<close>;
  \<^item> \<open>InvalidArgument\<close>: \<^verbatim>\<open>Required argument to .child has to be a string.\<close>.

  \<open>TypeError\<close> is what the language raises on a property access on \<^verbatim>\<open>undefined\<close> or
  \<^verbatim>\<open>null\<close> and on a call of what is not a function, and \<open>Foreign e\<close> is a value \<open>e\<close>
  thrown by a collaborator.
\<close>

datatype failure =
    ProtocolViolation
  | UnknownReservedPath string
  | InvalidArgument
  | TypeError
  | Foreign jsval

text \<open>
  \<^verbatim>\<open>createChild(path)\<close> closes over \<^verbatim>\<open>path\<close>; the other members of the object it
  returns do not depend on the path, so an accessor is its path.

  \<^verbatim>\<open>
  child: childPath => {
    if (typeof childPath !== `string`) {
      throw new Error(`Required argument to .child has to be a string.`)
    }
    return createChild(trimPath(`${path}/${childPath}`))
  }
  \<close>
\<close>

record accessor =
  path :: string

definition createChild :: "string \<Rightarrow> accessor" where
  "createChild p = \<lparr> path = p \<rparr>"

fun child :: "accessor \<Rightarrow> jsval \<Rightarrow> failure + accessor" where
  "child acc (JStr childPath) = Inr (createChild (trimPath (join_path (path acc) childPath)))"
| "child acc _ = Inl InvalidArgument"

text \<open>The driver returns \<^verbatim>\<open>createChild(``)\<close>.\<close>

definition root :: accessor where
  "root = createChild []"

text \<open>Two \<^verbatim>\<open>child\<close> calls in a row; the second is not made when the first throws.\<close>

definition child2 :: "accessor \<Rightarrow> jsval \<Rightarrow> jsval \<Rightarrow> failure + accessor" where
  "child2 acc a b = (case child acc a of Inl e \<Rightarrow> Inl e | Inr acc' \<Rightarrow> child acc' b)"


section \<open>The request side: applying changes\<close>

text \<open>
  A change as \<^verbatim>\<open>getChanges\<close> hands it over: \<^verbatim>\<open>{location, value}\<close>.
\<close>

record change =
  location :: string
  val :: jsval

text \<open>
  The calls the driver makes on its collaborators, in the order it makes them:
  \<^item> \<open>StoreSet location value\<close>: \<^verbatim>\<open>baseRef.child(location).set(value)\<close>;
  \<^item> \<open>AuthDispatch value\<close>: \<^verbatim>\<open>handleAuthentication(value)\<close>;
  \<^item> \<open>Invoke method args\<close>: \<^verbatim>\<open>method.apply(baseRef, args)\<close>.
\<close>

datatype 'm effect =
    StoreSet string jsval
  | AuthDispatch jsval
  | Invoke 'm "jsval list"

text \<open>
  What \<^verbatim>\<open>method.apply(baseRef, args)\<close> does: it throws, or it returns a value that
  fails the test \<^verbatim>\<open>result && result.then\<close>, or it returns a promise, which later
  rejects with an error (\<open>Some error\<close>) or does not (\<open>None\<close>), or it returns a value
  that has a \<^verbatim>\<open>then\<close> and no method \<^verbatim>\<open>catch\<close>, which settles in the same two
  ways.
\<close>

datatype call_result =
    Raises jsval
  | Returns_plain
  | Returns_promise "jsval option"
  | Returns_thenable "jsval option"

text \<open>
  The state the request side acts on: the calls made so far; the rejections whose
  \<^verbatim>\<open>catch\<close> callback is registered and has not run yet; and what the subject
  \<^verbatim>\<open>errors$\<close> has emitted.
\<close>

record 'm world =
  effects :: "'m effect list"
  pending :: "jsval list"
  errors :: "jsval list"

text \<open>A callback either runs to its end or throws; the state at that moment is kept.\<close>

datatype 'm outcome =
    Done "'m world"
  | Thrown failure "'m world"

definition call :: "'m effect \<Rightarrow> 'm world \<Rightarrow> 'm world" where
  "call e w = w\<lparr>effects := effects w @ [e]\<rparr>"

text \<open>
  \<^verbatim>\<open>
  if (result && result.then) {
    result.catch(error => { errors$.onNext(error) })
  }
  \<close>
  The callback runs after the current job, when the promise rejects; \<open>run_jobs\<close> runs
  the callbacks that are due, each of which hands its error to \<^verbatim>\<open>errors$.onNext\<close>.
  The test is on \<^verbatim>\<open>then\<close> and the call is of \<^verbatim>\<open>catch\<close>: on a value that has the
  first and not the second, the call throws and no callback is registered.
\<close>

fun catch_result :: "jsval option \<Rightarrow> 'm world \<Rightarrow> 'm world" where
  "catch_result None w = w"
| "catch_result (Some error) w = w\<lparr>pending := pending w @ [error]\<rparr>"

definition run_jobs :: "'m world \<Rightarrow> 'm world" where
  "run_jobs w = w\<lparr>errors := errors w @ pending w, pending := []\<rparr>"

text \<open>
  The body of \<^verbatim>\<open>changes.forEach(({location, value}) => ...)\<close>. The collaborators
  \<^verbatim>\<open>handleAuthentication\<close> (which returns \<^verbatim>\<open>[method, ...args]\<close> or throws) and the
  application of the method to the base reference are parameters.
\<close>

definition apply_change ::
  "(jsval \<Rightarrow> jsval + 'm \<times> jsval list) \<Rightarrow> ('m \<Rightarrow> jsval list \<Rightarrow> call_result) \<Rightarrow>
   change \<Rightarrow> 'm world \<Rightarrow> 'm outcome" where
  "apply_change handleAuthentication apply_method c w =
    (if take 5 (location c) = ''$user'' then
       (if location c \<noteq> ''$user'' then Thrown ProtocolViolation w
        else
          (case handleAuthentication (val c) of
             Inl e \<Rightarrow> Thrown (Foreign e) (call (AuthDispatch (val c)) w)
           | Inr (method, args) \<Rightarrow>
               (let w1 = call (Invoke method args) (call (AuthDispatch (val c)) w) in
                case apply_method method args of
                  Raises e \<Rightarrow> Thrown (Foreign e) w1
                | Returns_plain \<Rightarrow> Done w1
                | Returns_promise r \<Rightarrow> Done (catch_result r w1)
                | Returns_thenable r \<Rightarrow> Thrown TypeError w1)))
     else Done (call (StoreSet (location c) (val c)) w))"

text \<open>\<^verbatim>\<open>changes.forEach\<close>: a throw ends the loop.\<close>

fun forEach :: "('a \<Rightarrow> 'm world \<Rightarrow> 'm outcome) \<Rightarrow> 'a list \<Rightarrow> 'm world \<Rightarrow> 'm outcome" where
  "forEach f [] w = Done w"
| "forEach f (x # xs) w =
     (case f x w of Done w' \<Rightarrow> forEach f xs w' | Thrown e w' \<Rightarrow> Thrown e w')"

definition apply_changes ::
  "(jsval \<Rightarrow> jsval + 'm \<times> jsval list) \<Rightarrow> ('m \<Rightarrow> jsval list \<Rightarrow> call_result) \<Rightarrow>
   change list \<Rightarrow> 'm world \<Rightarrow> 'm outcome" where
  "apply_changes handleAuthentication apply_method changes w =
     forEach (apply_change handleAuthentication apply_method) changes w"

text \<open>
  The pipeline of \<^verbatim>\<open>timeDriver\<close>, on the snapshots the source emits:
  \<^verbatim>\<open>
  source$.startWith({}).pairwise()
    .map(([prevState, nextState]) => getChanges(prevState, nextState))
    .subscribe(changes => { changes.forEach(...) })
  \<close>
  A throw of the subscriber ends the subscription.
\<close>

definition startWith :: "'a \<Rightarrow> 'a list \<Rightarrow> 'a list" where
  "startWith x xs = x # xs"

fun pairwise :: "'a list \<Rightarrow> ('a \<times> 'a) list" where
  "pairwise (x # y # ys) = (x, y) # pairwise (y # ys)"
| "pairwise _ = []"

definition subscribe :: "('a \<Rightarrow> 'm world \<Rightarrow> 'm outcome) \<Rightarrow> 'a list \<Rightarrow> 'm world \<Rightarrow> 'm outcome" where
  "subscribe onNext xs w = forEach onNext xs w"

definition timeDriver ::
  "(jsval \<Rightarrow> jsval \<Rightarrow> change list) \<Rightarrow>
   (jsval \<Rightarrow> jsval + 'm \<times> jsval list) \<Rightarrow> ('m \<Rightarrow> jsval list \<Rightarrow> call_result) \<Rightarrow>
   jsval list \<Rightarrow> 'm world \<Rightarrow> 'm outcome" where
  "timeDriver getChanges handleAuthentication apply_method source w =
     subscribe (apply_changes handleAuthentication apply_method)
       (map (\<lambda>(prevState, nextState). getChanges prevState nextState)
          (pairwise (startWith (JObj []) source))) w"

section \<open>The response side: reading a location\<close>

text \<open>
  \<^verbatim>\<open>location.split(`/`)\<close>: the pieces between the slashes, empty pieces kept; the
  empty string gives one empty piece.
\<close>

fun split :: "string \<Rightarrow> string list" where
  "split [] = [[]]"
| "split (c # cs) =
     (if c = CHR ''/'' then [] # split cs
      else (case split cs of [] \<Rightarrow> [[c]] | piece # pieces \<Rightarrow> (c # piece) # pieces))"

text \<open>
  \<^verbatim>\<open>
  let specialCaseListeners = { $user: auth$, $lastError: errors$ }
  \<close>
  The members an object literal inherits have names that do not begin with a dollar
  sign, and the table is only read at a \<^verbatim>\<open>dir\<close> that does.
\<close>

datatype listener = Auth | Errors

definition specialCaseListeners :: "string \<Rightarrow> listener option" where
  "specialCaseListeners dir =
     (if dir = ''$user'' then Some Auth
      else if dir = ''$lastError'' then Some Errors
      else None)"

text \<open>
  \<^verbatim>\<open>let getFbChild = (ref, location) => location === `` ? ref : ref.child(location)\<close>
\<close>

datatype fbref = BaseRef | Child string

definition getFbChild :: "string \<Rightarrow> fbref" where
  "getFbChild loc = (if loc = [] then BaseRef else Child loc)"

text \<open>
  The streams \<^verbatim>\<open>get\<close> returns: \<^verbatim>\<open>getValue(ref)\<close>, the values at a reference of the
  store, or \<^verbatim>\<open>location$.map(object => ...)\<close>, the stream of a listener mapped through
  the walk along \<^verbatim>\<open>parts\<close>.
\<close>

datatype stream =
    Value_of fbref
  | Mapped listener "string list"

text \<open>
  \<^verbatim>\<open>
  get: (childPath = ``) => {
    let location = trimPath(`${path}/${childPath}`)
    if (location[0] !== `$`) {
      return getValue(getFbChild(baseRef, location))
    } else {
      let [dir, ...parts] = location.split(`/`)
      let location$ = specialCaseListeners[dir]
      if (!location$) {
        throw new Error(`No special key called '${dir}', I'm sorry!`)
      }
      return location$.map(object =>
        parts.reduce((o, k) => (o || {})[k], object) || null
      )
    }
  }
  \<close>
  \<^verbatim>\<open>location[0]\<close> of the empty string is \<^verbatim>\<open>undefined\<close>. The variable
  \<^verbatim>\<open>location\<close> is \<open>loc\<close> here, and \<^verbatim>\<open>location$\<close> is \<open>location_s\<close>.
\<close>

fun first_is_dollar :: "string \<Rightarrow> bool" where
  "first_is_dollar [] = False"
| "first_is_dollar (c # cs) = (c = CHR ''$'')"

definition get :: "accessor \<Rightarrow> string \<Rightarrow> failure + stream" where
  "get acc childPath =
     (let loc = trimPath (join_path (path acc) childPath) in
      if \<not> first_is_dollar loc then Inr (Value_of (getFbChild loc))
      else
        (case split loc of
           [] \<Rightarrow> Inl (UnknownReservedPath [])
         | dir # parts \<Rightarrow>
             (case specialCaseListeners dir of
                None \<Rightarrow> Inl (UnknownReservedPath dir)
              | Some location_s \<Rightarrow> Inr (Mapped location_s parts))))"

subsection \<open>The walk\<close>

text \<open>Truthiness, and \<^verbatim>\<open>a || b\<close> on values.\<close>

fun truthy :: "jsval \<Rightarrow> bool" where
  "truthy JUndefined = False"
| "truthy JNull = False"
| "truthy (JBool b) = b"
| "truthy JNaN = False"
| "truthy (JNum x) = (x \<noteq> 0)"
| "truthy (JStr s) = (s \<noteq> [])"
| "truthy (JObj kvs) = True"
| "truthy (JHost n kvs) = True"

definition js_or :: "jsval \<Rightarrow> jsval \<Rightarrow> jsval" where
  "js_or a b = (if truthy a then a else b)"

text \<open>
  The decimal numeral of an index, as a property key.
\<close>

fun decimal :: "nat \<Rightarrow> string" where
  "decimal n =
     (if n < 10 then [char_of (48 + n)]
      else decimal (n div 10) @ [char_of (48 + n mod 10)])"

declare decimal.simps [simp del]

text \<open>
  Property access \<^verbatim>\<open>v[k]\<close>. On \<^verbatim>\<open>undefined\<close> and \<^verbatim>\<open>null\<close> it throws. On any other
  value it looks first at the value's own properties (those of an object; the
  \<^verbatim>\<open>length\<close> and the characters of a string) and then along the prototype chain, where
  it finds the members the value inherits: \<^verbatim>\<open>constructor\<close>, \<^verbatim>\<open>toString\<close>,
  \<^verbatim>\<open>__proto__\<close>, the \<^verbatim>\<open>name\<close> of an error, and so on. These belong to the language and
  not to the driver, so they are a parameter: \<open>inherited v k\<close> is what the chain of \<open>v\<close>
  gives for the key \<open>k\<close>, which is \<^verbatim>\<open>undefined\<close> when the chain has no such member,
  and a failure when the member is an accessor that throws. For a function and the
  other objects of the language it also gives the properties that \<open>JHost\<close> does not
  list.
\<close>

type_synonym members = "jsval \<Rightarrow> string \<Rightarrow> failure + jsval"

fun property :: "members \<Rightarrow> jsval \<Rightarrow> string \<Rightarrow> failure + jsval" where
  "property inherited JUndefined k = Inl TypeError"
| "property inherited JNull k = Inl TypeError"
| "property inherited (JObj kvs) k =
     (case map_of kvs k of None \<Rightarrow> inherited (JObj kvs) k | Some v \<Rightarrow> Inr v)"
| "property inherited (JHost n kvs) k =
     (case map_of kvs k of None \<Rightarrow> inherited (JHost n kvs) k | Some v \<Rightarrow> Inr v)"
| "property inherited (JStr s) k =
     (if k = ''length'' then Inr (JNum (real (length s)))
      else (case find (\<lambda>i. decimal i = k) [0..<length s] of
              None \<Rightarrow> inherited (JStr s) k
            | Some i \<Rightarrow> Inr (JStr [s ! i])))"
| "property inherited (JBool b) k = inherited (JBool b) k"
| "property inherited JNaN k = inherited JNaN k"
| "property inherited (JNum x) k = inherited (JNum x) k"

text \<open>\<^verbatim>\<open>parts.reduce(f, object)\<close>, where \<^verbatim>\<open>f\<close> may throw.\<close>

fun reduce :: "('b \<Rightarrow> 'a \<Rightarrow> failure + 'b) \<Rightarrow> 'a list \<Rightarrow> 'b \<Rightarrow> failure + 'b" where
  "reduce f [] acc = Inr acc"
| "reduce f (k # ks) acc = (case f acc k of Inl e \<Rightarrow> Inl e | Inr acc' \<Rightarrow> reduce f ks acc')"

text \<open>\<^verbatim>\<open>(o, k) => (o || {})[k]\<close>, with \<open>obj\<close> for \<^verbatim>\<open>o\<close>.\<close>

definition field :: "members \<Rightarrow> jsval \<Rightarrow> string \<Rightarrow> failure + jsval" where
  "field inherited obj k = property inherited (js_or obj (JObj [])) k"

text \<open>\<^verbatim>\<open>object => parts.reduce((o, k) => (o || {})[k], object) || null\<close>\<close>

definition selector :: "members \<Rightarrow> string list \<Rightarrow> jsval \<Rightarrow> failure + jsval" where
  "selector inherited parts object =
     (case reduce (field inherited) parts object of
        Inl e \<Rightarrow> Inl e
      | Inr r \<Rightarrow> Inr (js_or r JNull))"

text \<open>
  What a stream emits, given what the listeners emit and what the store holds at each
  reference: \<^verbatim>\<open>map\<close> applies the selector to every value of the listener's stream.
\<close>

record sources =
  auth_s :: "jsval list"
  errors_s :: "jsval list"
  store_s :: "fbref \<Rightarrow> jsval list"

fun listen :: "sources \<Rightarrow> listener \<Rightarrow> jsval list" where
  "listen src Auth = auth_s src"
| "listen src Errors = errors_s src"

fun emissions :: "members \<Rightarrow> sources \<Rightarrow> stream \<Rightarrow> (failure + jsval) list" where
  "emissions inherited src (Value_of r) = map Inr (store_s src r)"
| "emissions inherited src (Mapped l parts) = map (selector inherited parts) (listen src l)"

text \<open>
  Two members of the standard library, for the examples: a plain object inherits
  \<^verbatim>\<open>constructor\<close>, which is the function \<^verbatim>\<open>Object\<close>, and the \<^verbatim>\<open>name\<close> of that function is
  the string \<^verbatim>\<open>"Object"\<close>. The library has many more members; \<open>object_members\<close> has
  these two only and answers \<^verbatim>\<open>undefined\<close> everywhere else. That is the answer of
  the library for the keys the examples read along the chain of a plain object
  (\<^verbatim>\<open>profile\<close>, \<^verbatim>\<open>name\<close>), and not for its other members, which the examples do
  not read. The theorems hold for every environment.
\<close>

definition object_function :: jsval where
  "object_function = JHost ''Object'' [(''name'', JStr ''Object'')]"

fun object_members :: members where
  "object_members (JObj kvs) k =
     Inr (if k = ''constructor'' then object_function else JUndefined)"
| "object_members v k = Inr JUndefined"


text \<open>The state an outcome carries.\<close>

fun world_of :: "'m outcome \<Rightarrow> 'm world" where
  "world_of (Done w) = w"
| "world_of (Thrown e w) = w"

text \<open>
  The normal form of a path, as the data model describes it: no slash at either end and
  no repeated slash. The empty path is the root.
\<close>

fun no_repeated_slash :: "string \<Rightarrow> bool" where
  "no_repeated_slash [] = True"
| "no_repeated_slash [c] = True"
| "no_repeated_slash (c # d # cs) =
     (\<not> (c = CHR ''/'' \<and> d = CHR ''/'') \<and> no_repeated_slash (d # cs))"

definition normalized :: "string \<Rightarrow> bool" where
  "normalized s = (no_repeated_slash s \<and> (s = [] \<or> (hd s \<noteq> CHR ''/'' \<and> last s \<noteq> CHR ''/'')))"

section \<open>Properties of path normalisation\<close>

text \<open>
  C3. Normalisation is meant to strip the slashes at both ends and to collapse every run
  of slashes. On \<^verbatim>\<open>"/a//b/"\<close> the code returns \<^verbatim>\<open>"a/b/"\<close>, not \<^verbatim>\<open>"a/b"\<close>: the first
  \<^verbatim>\<open>replace\<close> removes the leading slash and stops there, so the trailing one stays;
  and of two runs only the first is collapsed.
\<close>

theorem trimPath_single_replacement:
  "trimPath ''/a//b/'' = ''a/b/'' \<and> \<not> normalized (trimPath ''/a//b/'') \<and>
   trimPath ''a//b//c'' = ''a/b//c'' \<and> trimPath ''//a'' = ''/a''"
  by (simp add: trimPath_def normalized_def)


text \<open>The example of the specification holds: on the root, both are bound to \<^verbatim>\<open>"a/b"\<close>.\<close>

lemma child_a_b_on_root:
  "child2 root (JStr ''a'') (JStr ''b'') = Inr (createChild ''a/b'') \<and>
   child root (JStr ''a/b'') = Inr (createChild ''a/b'')"
  by (simp add: child2_def root_def createChild_def trimPath_def join_path_def)

text \<open>
  More generally the two are bound to the same location on every accessor whose path is
  in normal form, for all pieces that are non-empty paths in normal form: on such
  arguments \<^verbatim>\<open>trimPath\<close> has at most the one leading slash to remove.
\<close>

lemma replace_run_id: "no_repeated_slash s \<Longrightarrow> replace_run s = s"
  by (induction s rule: replace_run.induct) auto

lemma replace_edge_id:
  "s \<noteq> [] \<Longrightarrow> last s \<noteq> CHR ''/'' \<Longrightarrow> (b \<longrightarrow> hd s \<noteq> CHR ''/'') \<Longrightarrow> replace_edge b s = s"
  by (induction s arbitrary: b) (auto split: if_splits)

lemma no_repeated_slash_append:
  "no_repeated_slash xs \<Longrightarrow> no_repeated_slash ys \<Longrightarrow>
   xs = [] \<or> ys = [] \<or> last xs \<noteq> CHR ''/'' \<or> hd ys \<noteq> CHR ''/'' \<Longrightarrow>
   no_repeated_slash (xs @ ys)"
proof (induction xs rule: no_repeated_slash.induct)
  case 1
  then show ?case by simp
next
  case (2 c)
  then show ?case by (cases ys) auto
next
  case (3 c d cs)
  then show ?case by auto
qed

lemma normalized_join:
  assumes "normalized p" and "normalized a" and "p \<noteq> []" and "a \<noteq> []"
  shows "normalized (p @ ''/'' @ a)"
proof -
  have 1: "no_repeated_slash (''/'' @ a)"
    using assms(2,4) by (cases a) (auto simp: normalized_def)
  have "no_repeated_slash (p @ (''/'' @ a))"
    using assms(1,3) 1 by (auto intro!: no_repeated_slash_append [of p] simp: normalized_def)
  then show ?thesis
    using assms by (auto simp: normalized_def)
qed

lemma trimPath_join:
  assumes "normalized p" and "normalized a" and "a \<noteq> []"
  shows "trimPath (join_path p a) = (if p = [] then a else p @ ''/'' @ a)"
proof (cases "p = []")
  case True
  then show ?thesis
    using assms by (simp add: trimPath_def join_path_def replace_run_id normalized_def)
next
  case False
  have n: "normalized (p @ ''/'' @ a)"
    using normalized_join [OF assms(1,2) False assms(3)] .
  then have "replace_edge True (p @ ''/'' @ a) = p @ ''/'' @ a"
    by (intro replace_edge_id) (auto simp: normalized_def)
  with n False show ?thesis
    by (simp add: trimPath_def join_path_def replace_run_id normalized_def)
qed

lemma child_composition_on_normalized_paths:
  assumes "normalized p" and "normalized a" and "normalized b" and "a \<noteq> []" and "b \<noteq> []"
  shows "child2 (createChild p) (JStr a) (JStr b) = child (createChild p) (JStr (a @ ''/'' @ b))"
proof -
  have ab: "normalized (a @ ''/'' @ b)"
    using normalized_join assms by simp
  have pa: "normalized (if p = [] then a else p @ ''/'' @ a)"
    using normalized_join assms by simp
  have "trimPath (join_path (trimPath (join_path p a)) b) = trimPath (join_path p (a @ ''/'' @ b))"
    using trimPath_join [OF assms(1,2,4)] trimPath_join [OF pa assms(3,5)]
      trimPath_join [OF assms(1) ab] assms(4)
    by (auto split: if_splits)
  then show ?thesis
    by (simp add: child2_def createChild_def)
qed

section \<open>Properties of the request side\<close>

lemma split_not_Nil: "split s \<noteq> []"
  by (induction s) (auto split: list.splits)

text \<open>
  C1. A change whose location begins with \<^verbatim>\<open>$user\<close> and is not \<^verbatim>\<open>$user\<close> itself makes
  the step throw the protocol violation, in the state it found: no call on the store and
  none on the authentication have been made. The loop over the changes ends there.
\<close>

theorem deep_user_change_throws:
  assumes "take 5 (location c) = ''$user''" and "location c \<noteq> ''$user''"
  shows "apply_change hA app c w = Thrown ProtocolViolation w \<and>
         effects (world_of (apply_change hA app c w)) = effects w \<and>
         apply_changes hA app (c # cs) w = Thrown ProtocolViolation w"
  using assms by (simp add: apply_change_def apply_changes_def)

theorem deep_user_change_throws_witness:
  "take 5 (location \<lparr>location = ''$user/name'', val = JStr ''n''\<rparr>) = ''$user'' \<and>
   location \<lparr>location = ''$user/name'', val = JStr ''n''\<rparr> \<noteq> ''$user'' \<and>
   apply_change (\<lambda>v. Inr ((), [v])) (\<lambda>m a. Returns_plain)
     \<lparr>location = ''$user/name'', val = JStr ''n''\<rparr>
     \<lparr>effects = [], pending = [], errors = []\<rparr>
   = Thrown ProtocolViolation \<lparr>effects = [], pending = [], errors = []\<rparr>"
  using deep_user_change_throws
    [of "\<lparr>location = ''$user/name'', val = JStr ''n''\<rparr>"
        "\<lambda>v. Inr ((), [v])" "\<lambda>m a. Returns_plain"
        "\<lparr>effects = [], pending = [], errors = []\<rparr>" "[]"]
  by simp

lemma effects_catch_result: "effects (catch_result r w) = effects w"
  by (cases r) simp_all

text \<open>
  C9. The test for the reserved prefix looks at the first five characters of the
  location, not at its first segment: a location such as \<^verbatim>\<open>$username\<close> or
  \<^verbatim>\<open>$users/x\<close>, whose first segment is another key, makes the step throw the protocol
  violation, and the value is not written to the store.
\<close>

theorem user_prefix_is_character_test:
  assumes "take 5 (location c) = ''$user''" and "hd (split (location c)) \<noteq> ''$user''"
  shows "apply_change hA app c w = Thrown ProtocolViolation w \<and>
         apply_change hA app c w \<noteq> Done (call (StoreSet (location c) (val c)) w)"
proof -
  from assms(2) have "location c \<noteq> ''$user''" by auto
  with assms(1) show ?thesis by (simp add: apply_change_def)
qed

theorem user_prefix_is_character_test_witness:
  "take 5 ''$username'' = ''$user'' \<and> hd (split ''$username'') \<noteq> ''$user'' \<and>
   take 5 ''$users/x'' = ''$user'' \<and> hd (split ''$users/x'') \<noteq> ''$user'' \<and>
   apply_change (\<lambda>v. Inr ((), [v])) (\<lambda>m a. Returns_plain)
     \<lparr>location = ''$username'', val = JNum 1\<rparr> \<lparr>effects = [], pending = [], errors = []\<rparr>
   = Thrown ProtocolViolation \<lparr>effects = [], pending = [], errors = []\<rparr> \<and>
   apply_change (\<lambda>v. Inr ((), [v])) (\<lambda>m a. Returns_plain)
     \<lparr>location = ''$users/x'', val = JNum 1\<rparr> \<lparr>effects = [], pending = [], errors = []\<rparr>
   = Thrown ProtocolViolation \<lparr>effects = [], pending = [], errors = []\<rparr>"
  using user_prefix_is_character_test
    [of "\<lparr>location = ''$username'', val = JNum 1\<rparr>"
        "\<lambda>v. Inr ((), [v])" "\<lambda>m a. Returns_plain"
        "\<lparr>effects = [], pending = [], errors = []\<rparr>"]
    user_prefix_is_character_test
    [of "\<lparr>location = ''$users/x'', val = JNum 1\<rparr>"
        "\<lambda>v. Inr ((), [v])" "\<lambda>m a. Returns_plain"
        "\<lparr>effects = [], pending = [], errors = []\<rparr>"]
  by simp

text \<open>
  C2. A change at exactly \<^verbatim>\<open>$user\<close> hands its value to \<^verbatim>\<open>handleAuthentication\<close> and,
  when that returns \<^verbatim>\<open>[method, ...args]\<close>, applies the method to the base reference with
  these arguments; these are the only calls the step makes, so it adds no \<^verbatim>\<open>set\<close> on the
  store. A change whose location does not begin with \<^verbatim>\<open>$user\<close> makes one call,
  \<^verbatim>\<open>baseRef.child(location).set(value)\<close>, and completes.
\<close>

theorem user_change_goes_to_authentication:
  "(location c = ''$user'' \<longrightarrow>
      (case handleAuthentication (val c) of
         Inl e \<Rightarrow>
           effects (world_of (apply_change handleAuthentication app c w))
             = effects w @ [AuthDispatch (val c)]
       | Inr (method, args) \<Rightarrow>
           effects (world_of (apply_change handleAuthentication app c w))
             = effects w @ [AuthDispatch (val c), Invoke method args])) \<and>
   (location c = ''$user'' \<longrightarrow>
      (\<forall>l v. StoreSet l v \<in> set (effects (world_of (apply_change handleAuthentication app c w)))
         \<longrightarrow> StoreSet l v \<in> set (effects w))) \<and>
   (take 5 (location c) \<noteq> ''$user'' \<longrightarrow>
      apply_change handleAuthentication app c w = Done (call (StoreSet (location c) (val c)) w) \<and>
      effects (world_of (apply_change handleAuthentication app c w))
        = effects w @ [StoreSet (location c) (val c)])"
proof -
  have auth: "case handleAuthentication (val c) of
         Inl e \<Rightarrow>
           effects (world_of (apply_change handleAuthentication app c w))
             = effects w @ [AuthDispatch (val c)]
       | Inr (method, args) \<Rightarrow>
           effects (world_of (apply_change handleAuthentication app c w))
             = effects w @ [AuthDispatch (val c), Invoke method args]"
    if u: "location c = ''$user''"
  proof (cases "handleAuthentication (val c)")
    case (Inl e)
    with u show ?thesis by (simp add: apply_change_def call_def)
  next
    case (Inr p)
    obtain m a where p: "p = (m, a)" by (cases p)
    from u Inr p show ?thesis
      by (cases "app m a")
         (simp_all add: apply_change_def call_def Let_def effects_catch_result)
  qed
  have no_set: "StoreSet l v \<in> set (effects w)"
    if u: "location c = ''$user''"
      and s: "StoreSet l v \<in> set (effects (world_of (apply_change handleAuthentication app c w)))"
    for l v
    using auth [OF u] s by (auto split: sum.splits)
  have store: "apply_change handleAuthentication app c w
                 = Done (call (StoreSet (location c) (val c)) w)"
    if "take 5 (location c) \<noteq> ''$user''"
    using that by (simp add: apply_change_def)
  from auth no_set store show ?thesis
    by (auto simp: call_def)
qed

theorem user_change_goes_to_authentication_witness:
  "effects (world_of (apply_change (\<lambda>v. Inr ((), [v])) (\<lambda>m a. Returns_plain)
      \<lparr>location = ''$user'', val = JObj [(''provider'', JStr ''password'')]\<rparr>
      \<lparr>effects = [], pending = [], errors = []\<rparr>))
     = [AuthDispatch (JObj [(''provider'', JStr ''password'')]),
        Invoke () [JObj [(''provider'', JStr ''password'')]]] \<and>
   take 5 ''users/u1'' \<noteq> ''$user'' \<and>
   apply_change (\<lambda>v. Inr ((), [v])) (\<lambda>m a. Returns_plain)
      \<lparr>location = ''users/u1'', val = JStr ''Al''\<rparr>
      \<lparr>effects = [], pending = [], errors = []\<rparr>
     = Done \<lparr>effects = [StoreSet ''users/u1'' (JStr ''Al'')], pending = [], errors = []\<rparr>"
  using user_change_goes_to_authentication
    [of "\<lparr>location = ''$user'', val = JObj [(''provider'', JStr ''password'')]\<rparr>"
        "\<lambda>v. Inr ((), [v])" "\<lambda>m a. Returns_plain"
        "\<lparr>effects = [], pending = [], errors = []\<rparr>"]
    user_change_goes_to_authentication
    [of "\<lparr>location = ''users/u1'', val = JStr ''Al''\<rparr>"
        "\<lambda>v. Inr ((), [v])" "\<lambda>m a. Returns_plain"
        "\<lparr>effects = [], pending = [], errors = []\<rparr>"]
  by (simp add: call_def)

text \<open>
  C7. When the method applied for a \<^verbatim>\<open>$user\<close> change returns a promise, a value that
  has both \<^verbatim>\<open>then\<close> and \<^verbatim>\<open>catch\<close>, and the promise rejects, the step completes without
  throwing; the rejection waits for its \<^verbatim>\<open>catch\<close> callback, which hands it to
  \<^verbatim>\<open>errors$\<close> when the jobs run; and the loop goes on with the changes and the
  snapshots that follow.
\<close>

theorem rejected_authentication_reaches_error_channel:
  assumes "location c = ''$user''"
    and "handleAuthentication (val c) = Inr (method, args)"
    and "app method args = Returns_promise (Some error)"
  shows "\<exists>w'. apply_change handleAuthentication app c w = Done w' \<and>
           pending w' = pending w @ [error] \<and>
           errors w' = errors w \<and>
           errors (run_jobs w') = errors w @ pending w @ [error] \<and>
           apply_changes handleAuthentication app (c # cs) w
             = apply_changes handleAuthentication app cs w' \<and>
           subscribe (apply_changes handleAuthentication app) ((c # cs) # rest) w
             = subscribe (apply_changes handleAuthentication app) (cs # rest) w'"
  using assms
  by (simp add: apply_change_def apply_changes_def subscribe_def call_def run_jobs_def Let_def)

theorem rejected_authentication_reaches_error_channel_witness:
  "\<exists>w'. apply_change (\<lambda>v. Inr ((), [v])) (\<lambda>m a. Returns_promise (Some (JStr ''INVALID_PASSWORD'')))
            \<lparr>location = ''$user'', val = JNull\<rparr> \<lparr>effects = [], pending = [], errors = []\<rparr>
          = Done w' \<and>
        errors (run_jobs w') = [JStr ''INVALID_PASSWORD''] \<and>
        apply_changes (\<lambda>v. Inr ((), [v])) (\<lambda>m a. Returns_promise (Some (JStr ''INVALID_PASSWORD'')))
            [\<lparr>location = ''$user'', val = JNull\<rparr>, \<lparr>location = ''a'', val = JNum 1\<rparr>]
            \<lparr>effects = [], pending = [], errors = []\<rparr>
          = Done (call (StoreSet ''a'' (JNum 1)) w')"
proof -
  obtain w' where
    "apply_change (\<lambda>v. Inr ((), [v])) (\<lambda>m a. Returns_promise (Some (JStr ''INVALID_PASSWORD'')))
            \<lparr>location = ''$user'', val = JNull\<rparr> \<lparr>effects = [], pending = [], errors = []\<rparr>
          = Done w'"
    and "errors (run_jobs w') = [] @ [] @ [JStr ''INVALID_PASSWORD'']"
    and "apply_changes (\<lambda>v. Inr ((), [v])) (\<lambda>m a. Returns_promise (Some (JStr ''INVALID_PASSWORD'')))
            [\<lparr>location = ''$user'', val = JNull\<rparr>, \<lparr>location = ''a'', val = JNum 1\<rparr>]
            \<lparr>effects = [], pending = [], errors = []\<rparr>
          = apply_changes (\<lambda>v. Inr ((), [v]))
              (\<lambda>m a. Returns_promise (Some (JStr ''INVALID_PASSWORD'')))
              [\<lparr>location = ''a'', val = JNum 1\<rparr>] w'"
    using rejected_authentication_reaches_error_channel
      [of "\<lparr>location = ''$user'', val = JNull\<rparr>" "\<lambda>v. Inr ((), [v])" "()" "[JNull]"
          "\<lambda>m a. Returns_promise (Some (JStr ''INVALID_PASSWORD''))" "JStr ''INVALID_PASSWORD''"
          "\<lparr>effects = [], pending = [], errors = []\<rparr>" "[\<lparr>location = ''a'', val = JNum 1\<rparr>]" "[]"]
    by auto
  then show ?thesis
    by (auto simp: apply_changes_def apply_change_def)
qed

text \<open>
  The same does not hold of every result that passes the test on \<^verbatim>\<open>then\<close>. When the
  method returns a value that has a \<^verbatim>\<open>then\<close> and no \<^verbatim>\<open>catch\<close>, and that would reject
  with \<^verbatim>\<open>INVALID_PASSWORD\<close>, the step throws a type error: nothing reaches
  \<^verbatim>\<open>errors$\<close>, also after the jobs have run, and the change that follows is not
  applied.
\<close>

theorem thenable_without_catch_throws:
  "apply_change (\<lambda>v. Inr ((), [v])) (\<lambda>m a. Returns_thenable (Some (JStr ''INVALID_PASSWORD'')))
     \<lparr>location = ''$user'', val = JNull\<rparr> \<lparr>effects = [], pending = [], errors = []\<rparr>
   = Thrown TypeError
       \<lparr>effects = [AuthDispatch JNull, Invoke () [JNull]], pending = [], errors = []\<rparr> \<and>
   errors (run_jobs (world_of
     (apply_change (\<lambda>v. Inr ((), [v]))
        (\<lambda>m a. Returns_thenable (Some (JStr ''INVALID_PASSWORD'')))
        \<lparr>location = ''$user'', val = JNull\<rparr> \<lparr>effects = [], pending = [], errors = []\<rparr>)))
   = [] \<and>
   apply_changes (\<lambda>v. Inr ((), [v])) (\<lambda>m a. Returns_thenable (Some (JStr ''INVALID_PASSWORD'')))
     [\<lparr>location = ''$user'', val = JNull\<rparr>, \<lparr>location = ''a'', val = JNum 1\<rparr>]
     \<lparr>effects = [], pending = [], errors = []\<rparr>
   = Thrown TypeError
       \<lparr>effects = [AuthDispatch JNull, Invoke () [JNull]], pending = [], errors = []\<rparr>"
  by (simp add: apply_change_def apply_changes_def call_def run_jobs_def)

subsection \<open>The order of the changes\<close>

lemma forEach_append:
  "forEach f (xs @ ys) w =
     (case forEach f xs w of Done w' \<Rightarrow> forEach f ys w' | Thrown e w' \<Rightarrow> Thrown e w')"
  by (induction xs arbitrary: w) (auto split: outcome.splits)

lemma forEach_concat: "forEach (forEach f) xss w = forEach f (concat xss) w"
  by (induction xss arbitrary: w) (auto simp: forEach_append split: outcome.splits)

lemma pairwise_zip: "pairwise (x # xs) = zip (x # xs) xs"
  by (induction xs arbitrary: x) auto

lemma forEach_store_only:
  "\<forall>c \<in> set cs. take 5 (location c) \<noteq> ''$user'' \<Longrightarrow>
   forEach (apply_change hA app) cs w
     = Done (w\<lparr>effects := effects w @ map (\<lambda>c. StoreSet (location c) (val c)) cs\<rparr>)"
  by (induction cs arbitrary: w) (auto simp: apply_change_def call_def)

text \<open>
  C8. The snapshots are paired with their predecessors, the first one with the empty
  tree \<^verbatim>\<open>{}\<close>; running the driver is applying, one by one and in this order, the changes
  of \<^verbatim>\<open>getChanges\<close> for the first pair, then those for the second pair, and so on. When
  none of them is under \<^verbatim>\<open>$user\<close>, the calls on the store are these changes, in this
  order, one \<^verbatim>\<open>set\<close> each.
\<close>

theorem changes_applied_in_order:
  "timeDriver getChanges hA app source w
     = apply_changes hA app
         (concat (map (\<lambda>(prevState, nextState). getChanges prevState nextState)
                    (zip (JObj [] # source) source))) w \<and>
   ((\<forall>c \<in> set (concat (map (\<lambda>(prevState, nextState). getChanges prevState nextState)
                    (zip (JObj [] # source) source))). take 5 (location c) \<noteq> ''$user'') \<longrightarrow>
    timeDriver getChanges hA app source w
      = Done (w\<lparr>effects := effects w @ map (\<lambda>c. StoreSet (location c) (val c))
           (concat (map (\<lambda>(prevState, nextState). getChanges prevState nextState)
                    (zip (JObj [] # source) source)))\<rparr>))"
proof -
  let ?all = "concat (map (\<lambda>(prevState, nextState). getChanges prevState nextState)
                    (zip (JObj [] # source) source))"
  have eq: "timeDriver getChanges hA app source w = apply_changes hA app ?all w"
  proof -
    have "apply_changes hA app = forEach (apply_change hA app)"
      by (intro ext) (simp add: apply_changes_def)
    then show ?thesis
      by (simp add: timeDriver_def subscribe_def startWith_def pairwise_zip forEach_concat
            apply_changes_def)
  qed
  moreover have "(\<forall>c \<in> set ?all. take 5 (location c) \<noteq> ''$user'') \<longrightarrow>
      timeDriver getChanges hA app source w
        = Done (w\<lparr>effects := effects w @ map (\<lambda>c. StoreSet (location c) (val c)) ?all\<rparr>)"
    using forEach_store_only [of ?all hA app w] by (simp add: eq apply_changes_def)
  ultimately show ?thesis by blast
qed

theorem changes_applied_in_order_witness:
  "timeDriver
     (\<lambda>prevState nextState.
        if prevState = JObj [] then [\<lparr>location = ''a'', val = JNum 1\<rparr>]
        else [\<lparr>location = ''b'', val = JNum 2\<rparr>, \<lparr>location = ''c'', val = JNum 3\<rparr>])
     (\<lambda>v. Inr ((), [v])) (\<lambda>m a. Returns_plain)
     [JObj [(''a'', JNum 1)],
      JObj [(''a'', JNum 1), (''b'', JNum 2), (''c'', JNum 3)]]
     \<lparr>effects = [], pending = [], errors = []\<rparr>
   = Done \<lparr>effects = [StoreSet ''a'' (JNum 1), StoreSet ''b'' (JNum 2), StoreSet ''c'' (JNum 3)],
            pending = [], errors = []\<rparr>"
proof -
  let ?g = "\<lambda>prevState nextState.
           if prevState = JObj [] then [\<lparr>location = ''a'', val = JNum 1\<rparr>]
           else [\<lparr>location = ''b'', val = JNum 2\<rparr>, \<lparr>location = ''c'', val = JNum 3\<rparr>]"
  let ?src = "[JObj [(''a'', JNum 1)], JObj [(''a'', JNum 1), (''b'', JNum 2), (''c'', JNum 3)]]"
  have all: "concat (map (\<lambda>(prevState, nextState). ?g prevState nextState)
                    (zip (JObj [] # ?src) ?src))
       = [\<lparr>location = ''a'', val = JNum 1\<rparr>, \<lparr>location = ''b'', val = JNum 2\<rparr>,
          \<lparr>location = ''c'', val = JNum 3\<rparr>]"
    by simp
  have "\<forall>c \<in> set (concat (map (\<lambda>(prevState, nextState). ?g prevState nextState)
                    (zip (JObj [] # ?src) ?src))). take 5 (location c) \<noteq> ''$user''"
    unfolding all by simp
  with changes_applied_in_order
    [of ?g "\<lambda>v. Inr ((), [v])" "\<lambda>m a. Returns_plain" ?src
        "\<lparr>effects = [], pending = [], errors = []\<rparr>"]
  have "timeDriver ?g (\<lambda>v. Inr ((), [v])) (\<lambda>m a. Returns_plain) ?src
          \<lparr>effects = [], pending = [], errors = []\<rparr>
      = Done (\<lparr>effects = [], pending = [], errors = []\<rparr>
          \<lparr>effects := effects \<lparr>effects = [], pending = [], errors = []\<rparr> @
             map (\<lambda>c. StoreSet (location c) (val c))
               (concat (map (\<lambda>(prevState, nextState). ?g prevState nextState)
                          (zip (JObj [] # ?src) ?src)))\<rparr>)"
    by blast
  then show ?thesis unfolding all by simp
qed

section \<open>Properties of the response side\<close>

text \<open>
  C5. When the location \<^verbatim>\<open>get\<close> resolves begins with a dollar sign and its first
  segment is neither \<^verbatim>\<open>$user\<close> nor \<^verbatim>\<open>$lastError\<close>, the call throws, naming that
  segment, and returns no stream.
\<close>

theorem unknown_reserved_path_throws:
  assumes "first_is_dollar (trimPath (join_path (path acc) childPath))"
    and "hd (split (trimPath (join_path (path acc) childPath))) \<notin> {''$user'', ''$lastError''}"
  shows "get acc childPath
           = Inl (UnknownReservedPath (hd (split (trimPath (join_path (path acc) childPath)))))"
proof -
  let ?loc = "trimPath (join_path (path acc) childPath)"
  obtain dir parts where sp: "split ?loc = dir # parts"
    using split_not_Nil [of ?loc] by (cases "split ?loc") auto
  with assms(2) have "specialCaseListeners dir = None"
    by (simp add: specialCaseListeners_def)
  with assms(1) sp show ?thesis
    by (simp add: get_def Let_def)
qed

theorem unknown_reserved_path_throws_witness:
  "first_is_dollar (trimPath (join_path (path root) ''$nope'')) \<and>
   hd (split (trimPath (join_path (path root) ''$nope''))) \<notin> {''$user'', ''$lastError''} \<and>
   get root ''$nope'' = Inl (UnknownReservedPath ''$nope'')"
  using unknown_reserved_path_throws [of root "''$nope''"]
  by (simp add: root_def createChild_def join_path_def trimPath_def)

text \<open>
  C10. The value the walk ends on is emitted as it is when it is truthy, and
  \<^verbatim>\<open>null\<close> is emitted in its place when it is falsy: a field that holds \<^verbatim>\<open>0\<close>,
  \<^verbatim>\<open>false\<close>, the empty string or \<^verbatim>\<open>NaN\<close> reads as \<^verbatim>\<open>null\<close>, for every listener.
\<close>

theorem falsy_field_is_emitted_as_null:
  assumes "reduce (field inherited) parts object = Inr r"
  shows "selector inherited parts object = Inr (if truthy r then r else JNull) \<and>
         (r \<in> {JNum 0, JBool False, JStr [], JNaN} \<longrightarrow>
            selector inherited parts object = Inr JNull) \<and>
         (object \<in> set (listen src l) \<longrightarrow>
            Inr (if truthy r then r else JNull)
              \<in> set (emissions inherited src (Mapped l parts)))"
proof -
  have s: "selector inherited parts object = Inr (if truthy r then r else JNull)"
    using assms by (simp add: selector_def js_or_def)
  moreover have "r \<in> {JNum 0, JBool False, JStr [], JNaN} \<longrightarrow>
      selector inherited parts object = Inr JNull"
    using s by auto
  moreover have "object \<in> set (listen src l) \<longrightarrow>
      Inr (if truthy r then r else JNull) \<in> set (emissions inherited src (Mapped l parts))"
    using s by (auto simp: image_iff intro!: bexI [of _ object])
  ultimately show ?thesis by blast
qed

theorem falsy_field_is_emitted_as_null_witness:
  "reduce (field object_members) [''visits'']
     (JObj [(''uid'', JStr ''u1''), (''visits'', JNum 0)]) = Inr (JNum 0) \<and>
   selector object_members [''visits'']
     (JObj [(''uid'', JStr ''u1''), (''visits'', JNum 0)]) = Inr JNull \<and>
   Inr JNull \<in> set (emissions object_members
      \<lparr>auth_s = [JObj [(''uid'', JStr ''u1''), (''visits'', JNum 0)]], errors_s = [],
        store_s = (\<lambda>r. [])\<rparr> (Mapped Auth [''visits'']))"
proof -
  let ?object = "JObj [(''uid'', JStr ''u1''), (''visits'', JNum 0)]"
  let ?src = "\<lparr>auth_s = [?object], errors_s = [], store_s = (\<lambda>r. [])\<rparr>"
  have h: "reduce (field object_members) [''visits''] ?object = Inr (JNum 0)"
    by (simp add: field_def js_or_def)
  have m: "?object \<in> set (listen ?src Auth)"
    by simp
  note t = falsy_field_is_emitted_as_null [OF h, of ?src Auth]
  from t [THEN conjunct1]
  have a: "selector object_members [''visits''] ?object = Inr JNull"
    by simp
  from t [THEN conjunct2, THEN conjunct2, rule_format, OF m]
  have b: "Inr JNull \<in> set (emissions object_members ?src (Mapped Auth [''visits'']))"
    by (simp del: emissions.simps)
  from h a b show ?thesis by blast
qed

subsection \<open>Properties of the walk\<close>













text \<open>
  The two members are all this needs: the same string is emitted whatever else the
  values inherit.
\<close>

lemma constructor_name_is_emitted:
  assumes "inherited (JObj []) ''constructor'' = Inr f" and "truthy f"
    and "property inherited f ''name'' = Inr (JStr ''Object'')"
  shows "selector inherited [''constructor'', ''name''] JNull = Inr (JStr ''Object'')"
  using assms by (simp add: selector_def field_def js_or_def)

end
